theory Spec2Isabelle
  imports Main "HOL-Library.Multiset" "HOL-Library.Sublist" "HOL-Library.Char_ord"
    "HOL-Library.List_Lexorder" "HOL-Library.Product_Lexorder"
begin

section \<open>Values and exceptions\<close>

text \<open>
  A decoded log payload is whatever \<^verbatim>\<open>bson.json_util.loads\<close> returns: dictionaries,
  lists, strings, integers, booleans, \<^verbatim>\<open>None\<close> and BSON timestamps
  (\<^verbatim>\<open>{"$timestamp": {"t": 123, "i": 4}}\<close>). A dictionary is an association list read
  with \<open>map_of\<close>. Floating-point numbers are left out of the model.
\<close>

datatype json =
    JNull
  | JBool bool
  | JInt int
  | JStr string
  | JTimestamp int int
  | JArr "json list"
  | JObj "(string \<times> json) list"

text \<open>
  The exceptions the modelled code can raise. \<open>SystemExit n\<close> is \<^verbatim>\<open>sys.exit(n)\<close>.
  \<open>UnknownOplogReference\<close>, \<open>NonMonotonicLog\<close> and \<open>UnknownRoleLabel\<close> are the failures of
  the classes of \<^verbatim>\<open>system_state\<close>, named as the specification names them.
\<close>

datatype error =
    KeyError
  | IndexError
  | TypeError
  | AttributeError
  | ValueError
  | JSONDecodeError
  | SystemExit int
  | UnknownOplogReference
  | NonMonotonicLog
  | UnknownRoleLabel

text \<open>
  Library functions the sources call and that are not modelled here are parameters:
  \<^item> \<open>line_pat_match\<close>: \<^verbatim>\<open>line_pat.match(line)\<close>, giving the groups \<^verbatim>\<open>timestamp\<close> and
    \<^verbatim>\<open>json\<close> of a matching line;
  \<^item> \<open>strptime\<close>: \<^verbatim>\<open>datetime.strptime(s, '%Y-%m-%dT%H:%M:%S.%f%z')\<close>, the instant as an
    integer (aware datetimes compare by instant);
  \<^item> \<open>json_loads\<close>: \<^verbatim>\<open>json_util.loads\<close>;
  \<^item> \<open>int_of_str\<close>: the builtin \<^verbatim>\<open>int\<close> on a string (\<open>None\<close> is \<^verbatim>\<open>ValueError\<close>);
  \<^item> \<open>ServerState_names\<close>: the member names of the enumeration \<^verbatim>\<open>ServerState\<close>.
\<close>

record ext =
  line_pat_match :: "string \<Rightarrow> (string \<times> string) option"
  strptime :: "string \<Rightarrow> error + int"
  json_loads :: "string \<Rightarrow> error + json"
  int_of_str :: "string \<Rightarrow> int option"
  ServerState_names :: "string list"

subsection \<open>Python builtins\<close>

text \<open>\<^verbatim>\<open>x[key]\<close> with a string key: only a dictionary accepts it.\<close>

fun getitem :: "json \<Rightarrow> string \<Rightarrow> error + json" where
  "getitem (JObj kvs) k = (case map_of kvs k of None \<Rightarrow> Inl KeyError | Some v \<Rightarrow> Inr v)"
| "getitem _ k = Inl TypeError"

text \<open>Iterating a value, as \<^verbatim>\<open>enumerate\<close> does: a dictionary yields its keys, a
  string its characters.\<close>

fun py_iter :: "json \<Rightarrow> error + json list" where
  "py_iter (JArr xs) = Inr xs"
| "py_iter (JObj kvs) = Inr (map (\<lambda>kv. JStr (fst kv)) kvs)"
| "py_iter (JStr s) = Inr (map (\<lambda>c. JStr [c]) s)"
| "py_iter _ = Inl TypeError"

text \<open>\<^verbatim>\<open>s.split(sep)\<close> for a one-character separator.\<close>

fun split_on :: "char \<Rightarrow> string \<Rightarrow> string list" where
  "split_on c [] = [[]]"
| "split_on c (x # xs) =
     (if x = c then [] # split_on c xs
      else (case split_on c xs of [] \<Rightarrow> [[x]] | p # ps \<Rightarrow> (x # p) # ps))"

text \<open>\<^verbatim>\<open>v.split(':')\<close>: only a string has the method.\<close>

fun str_split :: "json \<Rightarrow> error + string list" where
  "str_split (JStr s) = Inr (split_on (CHR '':'') s)"
| "str_split _ = Inl AttributeError"

text \<open>\<^verbatim>\<open>xs[i]\<close> and \<^verbatim>\<open>xs[i] = v\<close> on a list: a negative index counts from the end,
  an index out of range raises \<^verbatim>\<open>IndexError\<close>.\<close>

definition py_index :: "nat \<Rightarrow> int \<Rightarrow> nat option" where
  "py_index n i =
     (let j = (if i < 0 then i + int n else i)
      in if 0 \<le> j \<and> j < int n then Some (nat j) else None)"

definition list_getitem :: "'a list \<Rightarrow> int \<Rightarrow> error + 'a" where
  "list_getitem xs i =
     (case py_index (length xs) i of None \<Rightarrow> Inl IndexError | Some j \<Rightarrow> Inr (xs ! j))"

definition list_setitem :: "'a list \<Rightarrow> int \<Rightarrow> 'a \<Rightarrow> error + 'a list" where
  "list_setitem xs i v =
     (case py_index (length xs) i of None \<Rightarrow> Inl IndexError | Some j \<Rightarrow> Inr (xs[j := v]))"

text \<open>\<^verbatim>\<open>str(n)\<close> for a natural number.\<close>

definition digit_char :: "nat \<Rightarrow> char" where
  "digit_char d = ''0123456789'' ! d"

fun str_nat :: "nat \<Rightarrow> string" where
  "str_nat n =
     (if n < 10 then [digit_char n]
      else str_nat (n div 10) @ [digit_char (n mod 10)])"

declare str_nat.simps [simp del]

section \<open>The classes of \<^verbatim>\<open>system_state\<close>\<close>

text \<open>
  \<^verbatim>\<open>system_state.py\<close> is not among the sources. Its data classes are read off the
  constructor calls of \<^verbatim>\<open>parse_log.py\<close> and \<^verbatim>\<open>repl-trace-checker.py\<close>; the two mappers
  are modelled from the specification.
\<close>

text \<open>A member of the enumeration \<^verbatim>\<open>ServerState\<close>, by its name.\<close>

datatype ServerState = ServerState string

definition Follower :: ServerState where
  "Follower = ServerState ''Follower''"

text \<open>Modelled from the spec: \<^verbatim>\<open>ServerState[label]\<close>, whose enumeration is missing
  (4.5 step 5: resolve the reported role label to the role enum, failing if the label is
  unrecognized).\<close>

fun ServerState_getitem :: "ext \<Rightarrow> json \<Rightarrow> error + ServerState" where
  "ServerState_getitem x (JStr name) =
     (if name \<in> set (ServerState_names x) then Inr (ServerState name)
      else Inl UnknownRoleLabel)"
| "ServerState_getitem x _ = Inl UnknownRoleLabel"

text \<open>\<^verbatim>\<open>OplogEntry(term=...)\<close>.\<close>

datatype OplogEntry = OplogEntry json

text \<open>A commit point is \<^verbatim>\<open>CommitPoint(term=..., index=...)\<close> in an event; the initial
  snapshot of \<^verbatim>\<open>main\<close> holds dictionaries instead.\<close>

datatype commit_point =
    CommitPoint json nat
  | CommitPointDict "(string \<times> json) list"

text \<open>Modelled from the spec: \<^verbatim>\<open>PortMapper\<close>, missing from the sources (4.1: the first
  call with a port allocates the next unused integer id, starting at 0, and remembers the
  association; later calls with the port return the same id). The table lists the ports
  in the order of their first call, each with its id.\<close>

type_synonym PortMapper = "(int \<times> int) list"

definition get_server_id :: "PortMapper \<Rightarrow> int \<Rightarrow> int \<times> PortMapper" where
  "get_server_id pm port =
     (case map_of pm port of
        Some i \<Rightarrow> (i, pm)
      | None \<Rightarrow> (int (length pm), pm @ [(port, int (length pm))]))"

text \<open>A sequence of calls \<^verbatim>\<open>get_server_id(port)\<close> on one mapper: the ids returned, in
  order, and the mapper afterwards.\<close>

fun get_server_ids :: "PortMapper \<Rightarrow> int list \<Rightarrow> int list \<times> PortMapper" where
  "get_server_ids pm [] = ([], pm)"
| "get_server_ids pm (port # ports) =
     (case get_server_id pm port of (i, pm1) \<Rightarrow>
        (case get_server_ids pm1 ports of (ids, pm2) \<Rightarrow> (i # ids, pm2)))"

text \<open>The distinct elements of a list, in the order of their first occurrence.\<close>

fun first_seen :: "'a list \<Rightarrow> 'a list" where
  "first_seen [] = []"
| "first_seen (p # ps) = p # removeAll p (first_seen ps)"

text \<open>Modelled from the spec: \<^verbatim>\<open>OplogIndexMapper\<close>, missing from the sources (4.2:
  \<^verbatim>\<open>set_index\<close> records an optime's index if the optime is not yet present, is a no-op
  for the same index and fails for a different one; \<^verbatim>\<open>get_index\<close> fails for an optime
  never registered). One instance is one table from optimes to indices.\<close>

type_synonym OplogIndexMapper = "json \<rightharpoonup> nat"

definition set_index :: "OplogIndexMapper \<Rightarrow> json \<Rightarrow> nat \<Rightarrow> error + OplogIndexMapper" where
  "set_index om optime i =
     (case om optime of
        None \<Rightarrow> Inr (om(optime \<mapsto> i))
      | Some j \<Rightarrow> if j = i then Inr om else Inl NonMonotonicLog)"

definition get_index :: "OplogIndexMapper \<Rightarrow> json \<Rightarrow> error + nat" where
  "get_index om optime =
     (case om optime of None \<Rightarrow> Inl UnknownOplogReference | Some i \<Rightarrow> Inr i)"

text \<open>\<^verbatim>\<open>SystemState\<close>, with the fields \<^verbatim>\<open>main\<close> and \<^verbatim>\<open>update_state\<close> pass to its
  constructor. The three tuples are lists indexed by server id.\<close>

record SystemState =
  n_servers :: nat
  action :: json
  globalCurrentTerm :: json
  log :: "OplogEntry list list"
  state :: "ServerState list"
  commitPoint :: "commit_point list"
  serverLogLocation :: string

section \<open>\<^verbatim>\<open>parse_log.py\<close>\<close>

record LogLine =
  timestamp :: int
  location :: string
  line :: string
  obj :: json

record LogEvent =
  ev_timestamp :: int
  ev_location :: string
  ev_line :: string
  ev_action :: json
  ev_server_id :: int
  ev_term :: json
  ev_state :: ServerState
  ev_commitPoint :: commit_point
  ev_log :: "OplogEntry list"

text \<open>\<^verbatim>\<open>fixup_term\<close>: what the implementation calls -1, the spec calls 0.\<close>

definition fixup_term :: "json \<Rightarrow> json" where
  "fixup_term t = (if t = JInt (- 1) then JInt 0 else t)"

text \<open>\<^verbatim>\<open>generate_oplog_entries\<close>, consumed by \<^verbatim>\<open>tuple\<close>: for each entry in turn the
  optime is registered at the entry's position, then the entry's term is read.\<close>

fun generate_oplog_entries ::
  "json list \<Rightarrow> nat \<Rightarrow> OplogIndexMapper \<Rightarrow> error + (OplogEntry list \<times> OplogIndexMapper)" where
  "generate_oplog_entries [] index om = Inr ([], om)"
| "generate_oplog_entries (entry # rest) index om =
     (case getitem entry ''ts'' of Inl e \<Rightarrow> Inl e | Inr ts \<Rightarrow>
     (case set_index om ts index of Inl e \<Rightarrow> Inl e | Inr om1 \<Rightarrow>
     (case getitem entry ''t'' of Inl e \<Rightarrow> Inl e | Inr t \<Rightarrow>
     (case generate_oplog_entries rest (Suc index) om1 of Inl e \<Rightarrow> Inl e
      | Inr (es, om2) \<Rightarrow> Inr (OplogEntry t # es, om2)))))"

text \<open>\<^verbatim>\<open>parse_log_line\<close>. The two mappers are mutated in place by the source; here they
  are returned. The expressions are evaluated in the order of the source; the message
  printed before an exception is raised again is not modelled.\<close>

definition parse_log_line ::
  "ext \<Rightarrow> LogLine \<Rightarrow> PortMapper \<Rightarrow> OplogIndexMapper
     \<Rightarrow> error + (LogEvent \<times> PortMapper \<times> OplogIndexMapper)" where
  "parse_log_line x log_line port_mapper oplog_index_mapper =
     (case getitem (obj log_line) ''state'' of Inl e \<Rightarrow> Inl e | Inr raft_mongo \<Rightarrow>
     (case getitem (obj log_line) ''host'' of Inl e \<Rightarrow> Inl e | Inr host \<Rightarrow>
     (case str_split host of Inl e \<Rightarrow> Inl e | Inr parts \<Rightarrow>
     (case list_getitem parts 1 of Inl e \<Rightarrow> Inl e | Inr p \<Rightarrow>
     (case int_of_str x p of None \<Rightarrow> Inl ValueError | Some port \<Rightarrow>
     (case getitem raft_mongo ''log'' of Inl e \<Rightarrow> Inl e | Inr lg \<Rightarrow>
     (case py_iter lg of Inl e \<Rightarrow> Inl e | Inr entries \<Rightarrow>
     (case generate_oplog_entries entries 0 oplog_index_mapper of Inl e \<Rightarrow> Inl e
      | Inr (lg', om) \<Rightarrow>
     (case getitem raft_mongo ''commitPoint'' of Inl e \<Rightarrow> Inl e | Inr cp \<Rightarrow>
     (case getitem cp ''t'' of Inl e \<Rightarrow> Inl e | Inr cp_t \<Rightarrow>
     (case getitem cp ''ts'' of Inl e \<Rightarrow> Inl e | Inr cp_ts \<Rightarrow>
     (case get_index om cp_ts of Inl e \<Rightarrow> Inl e | Inr cp_index \<Rightarrow>
     (case getitem (obj log_line) ''action'' of Inl e \<Rightarrow> Inl e | Inr act \<Rightarrow>
     (case get_server_id port_mapper port of (server_id, pm) \<Rightarrow>
     (case getitem raft_mongo ''term'' of Inl e \<Rightarrow> Inl e | Inr tm \<Rightarrow>
     (case getitem raft_mongo ''serverState'' of Inl e \<Rightarrow> Inl e | Inr label \<Rightarrow>
     (case ServerState_getitem x label of Inl e \<Rightarrow> Inl e | Inr st \<Rightarrow>
      Inr (\<lparr>ev_timestamp = timestamp log_line,
            ev_location = location log_line,
            ev_line = line log_line,
            ev_action = act,
            ev_server_id = server_id,
            ev_term = fixup_term tm,
            ev_state = st,
            ev_commitPoint = CommitPoint (fixup_term cp_t) cp_index,
            ev_log = lg'\<rparr>, pm, om))))))))))))))))))"

subsection \<open>\<^verbatim>\<open>merge_log_streams\<close>\<close>

text \<open>
  A Python generator is modelled by what a consumer can observe of it: the items it
  yields, in order, and how it ends, by \<^verbatim>\<open>StopIteration\<close> (\<open>None\<close>) or by an exception
  raised when the item after the last one is requested (\<open>Some e\<close>). The consumer handles
  every item before it asks for the next, so an exception of the generator comes after
  the consumer's work on the items before it.
\<close>

type_synonym 'a generated = "'a list \<times> error option"

definition yield :: "'a \<Rightarrow> 'a generated \<Rightarrow> 'a generated" where
  "yield v g = (v # fst g, snd g)"


definition parse_log_timestamp :: "ext \<Rightarrow> string \<Rightarrow> error + int" where
  "parse_log_timestamp x timestamp_str = strptime x timestamp_str"

text \<open>The inner generator \<^verbatim>\<open>gen(stream)\<close>, from the line after line number \<open>n\<close> on.
  A line that does not match is passed over; \<^verbatim>\<open>JSONDecodeError\<close> becomes
  \<^verbatim>\<open>sys.exit(2)\<close> (the message printed before is not modelled).\<close>

fun gen :: "ext \<Rightarrow> string \<Rightarrow> string list \<Rightarrow> nat \<Rightarrow> LogLine generated" where
  "gen x nm [] n = ([], None)"
| "gen x nm (ln # rest) n =
     (let line_number = n + 1 in
      case line_pat_match x ln of
        None \<Rightarrow> gen x nm rest line_number
      | Some (ts_group, json_group) \<Rightarrow>
         (case parse_log_timestamp x ts_group of
            Inl e \<Rightarrow> ([], Some e)
          | Inr ts \<Rightarrow>
             (case json_loads x json_group of
                Inl e \<Rightarrow> ([], Some (if e = JSONDecodeError then SystemExit 2 else e))
              | Inr ob \<Rightarrow>
                 yield \<lparr>timestamp = ts,
                        location = nm @ '':'' @ str_nat line_number,
                        line = ln,
                        obj = ob\<rparr>
                   (gen x nm rest line_number))))"


text \<open>
  \<^verbatim>\<open>heapq.merge\<close> keeps one entry \<^verbatim>\<open>[value, order, next]\<close> for each input that is not
  exhausted: the input's current item, the input's position among the arguments, and
  the input itself (here: the items it has yet to yield and how it ends). Entries compare
  as lists: by value, and by order when the values are equal.
\<close>

type_synonym entry = "LogLine \<times> nat \<times> LogLine list \<times> error option"




text \<open>The first item of every input is requested, in the order of the arguments; an
  input that is empty is left out.\<close>

fun merge_init :: "LogLine generated list \<Rightarrow> nat \<Rightarrow> error + entry list" where
  "merge_init [] order = Inr []"
| "merge_init ((items, status) # its) order =
     (case items of
        [] \<Rightarrow> (case status of Some e \<Rightarrow> Inl e | None \<Rightarrow> merge_init its (Suc order))
      | v # rest \<Rightarrow>
         (case merge_init its (Suc order) of
            Inl e \<Rightarrow> Inl e
          | Inr h \<Rightarrow> Inr ((v, order, rest, status) # h)))"











text \<open>The items an entry of the heap stands for: its value and what its input has yet to
  yield; and the items of all entries of a heap.\<close>

definition entry_items :: "entry \<Rightarrow> LogLine list" where
  "entry_items e = (case e of (v, order, rest, status) \<Rightarrow> v # rest)"

definition entry_status :: "entry \<Rightarrow> error option" where
  "entry_status e = (case e of (v, order, rest, status) \<Rightarrow> status)"






section \<open>\<^verbatim>\<open>repl-trace-checker.py\<close>\<close>

text \<open>\<^verbatim>\<open>update_state\<close>: each tuple is copied into a list, the list is assigned at
  \<^verbatim>\<open>log_event.server_id\<close>, and a new \<^verbatim>\<open>SystemState\<close> is built.\<close>

definition update_state :: "SystemState \<Rightarrow> LogEvent \<Rightarrow> error + SystemState" where
  "update_state current_state log_event =
     (case list_setitem (log current_state) (ev_server_id log_event) (ev_log log_event) of
        Inl e \<Rightarrow> Inl e | Inr next_log \<Rightarrow>
     (case list_setitem (state current_state) (ev_server_id log_event) (ev_state log_event) of
        Inl e \<Rightarrow> Inl e | Inr next_server_state \<Rightarrow>
     (case list_setitem (commitPoint current_state) (ev_server_id log_event)
             (ev_commitPoint log_event) of
        Inl e \<Rightarrow> Inl e | Inr next_commit_point \<Rightarrow>
      Inr \<lparr>n_servers = n_servers current_state,
           action = ev_action log_event,
           globalCurrentTerm = ev_term log_event,
           log = next_log,
           state = next_server_state,
           commitPoint = next_commit_point,
           serverLogLocation = ev_location log_event\<rparr>)))"

text \<open>The initial snapshot \<^verbatim>\<open>main\<close> builds for \<^verbatim>\<open>n_servers = len(args.logfile)\<close>.\<close>

definition initial_state :: "nat \<Rightarrow> SystemState" where
  "initial_state n =
     \<lparr>n_servers = n,
      action = JStr ''Init'',
      globalCurrentTerm = JInt (- 1),
      log = replicate n [],
      state = replicate n Follower,
      commitPoint = replicate n (CommitPointDict [(''term'', JInt (- 1)), (''index'', JInt 0)]),
      serverLogLocation = ''''\<rparr>"

text \<open>How a run of \<^verbatim>\<open>main\<close> ends: by an exception, with the trace recorded until
  then, or with the trace and the final state that go to the templates. Logging, the
  rendering of the templates and the files written after the loop are not modelled.\<close>

datatype outcome =
    Aborted error "SystemState list"
  | Finished "SystemState list" SystemState

text \<open>The loop of \<^verbatim>\<open>main\<close> over the merged lines; \<open>status\<close> is how the merged
  generator ends after its last line.\<close>

fun main_loop ::
  "ext \<Rightarrow> LogLine list \<Rightarrow> error option \<Rightarrow> SystemState list \<Rightarrow> PortMapper
     \<Rightarrow> OplogIndexMapper \<Rightarrow> SystemState \<Rightarrow> outcome" where
  "main_loop x [] status trace pm om current_state =
     (case status of Some e \<Rightarrow> Aborted e trace | None \<Rightarrow> Finished trace current_state)"
| "main_loop x (log_line # rest) status trace pm om current_state =
     (case parse_log_line x log_line pm om of
        Inl e \<Rightarrow> Aborted e trace
      | Inr (log_event, pm', om') \<Rightarrow>
         (case update_state current_state log_event of
            Inl e \<Rightarrow> Aborted e (trace @ [current_state])
          | Inr next_state \<Rightarrow>
              main_loop x rest status (trace @ [current_state]) pm' om' next_state))"



section \<open>An example run\<close>

text \<open>Two servers. Server A (port 27017) reports one oplog entry with optime
  \<open>JTimestamp 1 1\<close> and a commit point at it; server B (port 27018) reports an empty oplog,
  the term -1, and a commit point at the same optime. The example parameters recognise
  lines of the form \<^verbatim>\<open>T<digit> <payload name>\<close>.\<close>

definition payload_A :: json where
  "payload_A =
     JObj [(''action'', JStr ''ClientWrite''), (''host'', JStr ''localhost:27017''),
       (''state'', JObj [(''term'', JInt 1), (''serverState'', JStr ''Leader''),
          (''commitPoint'', JObj [(''t'', JInt 1), (''ts'', JTimestamp 1 1)]),
          (''log'', JArr [JObj [(''ts'', JTimestamp 1 1), (''t'', JInt 1)]])])]"

definition payload_B :: json where
  "payload_B =
     JObj [(''action'', JStr ''AdvanceCommitPoint''), (''host'', JStr ''localhost:27018''),
       (''state'', JObj [(''term'', JInt (- 1)), (''serverState'', JStr ''Follower''),
          (''commitPoint'', JObj [(''t'', JInt (- 1)), (''ts'', JTimestamp 1 1)]),
          (''log'', JArr [])])]"

definition example_ext :: ext where
  "example_ext =
     \<lparr>line_pat_match =
        (\<lambda>s. if 3 \<le> length s \<and> s ! 0 = CHR ''T'' \<and> s ! 2 = CHR '' ''
             then Some ([s ! 1], drop 3 s) else None),
      strptime =
        (\<lambda>s. if s = ''1'' then Inr 1 else if s = ''2'' then Inr 2 else Inl ValueError),
      json_loads =
        (\<lambda>s. if s = ''A'' then Inr payload_A else if s = ''B'' then Inr payload_B
             else Inl JSONDecodeError),
      int_of_str =
        (\<lambda>s. if s = ''27017'' then Some 27017 else if s = ''27018'' then Some 27018
             else None),
      ServerState_names = [''Follower'', ''Leader'']\<rparr>"



definition line_A :: LogLine where
  "line_A = \<lparr>timestamp = 1, location = ''a.log:2'', line = ''T1 A'', obj = payload_A\<rparr>"

definition line_B :: LogLine where
  "line_B = \<lparr>timestamp = 2, location = ''b.log:1'', line = ''T2 B'', obj = payload_B\<rparr>"




definition event_A :: LogEvent where
  "event_A =
     \<lparr>ev_timestamp = 1, ev_location = ''a.log:2'', ev_line = ''T1 A'',
      ev_action = JStr ''ClientWrite'', ev_server_id = 0, ev_term = JInt 1,
      ev_state = ServerState ''Leader'', ev_commitPoint = CommitPoint (JInt 1) 0,
      ev_log = [OplogEntry (JInt 1)]\<rparr>"

definition event_B :: LogEvent where
  "event_B =
     \<lparr>ev_timestamp = 2, ev_location = ''b.log:1'', ev_line = ''T2 B'',
      ev_action = JStr ''AdvanceCommitPoint'', ev_server_id = 1, ev_term = JInt 0,
      ev_state = ServerState ''Follower'', ev_commitPoint = CommitPoint (JInt 0) 0,
      ev_log = []\<rparr>"



lemmas example_defs =
  payload_A_def payload_B_def example_ext_def line_A_def line_B_def event_A_def event_B_def

lemmas mapper_defs =
  list_getitem_def py_index_def set_index_def get_index_def get_server_id_def fixup_term_def

lemma parse_A:
  "parse_log_line example_ext line_A [] Map.empty
     = Inr (event_A, [(27017, 0)], [JTimestamp 1 1 \<mapsto> 0])"
  by (simp add: parse_log_line_def example_defs mapper_defs)

lemma parse_B:
  "parse_log_line example_ext line_B [(27017, 0)] [JTimestamp 1 1 \<mapsto> 0]
     = Inr (event_B, [(27017, 0), (27018, 1)], [JTimestamp 1 1 \<mapsto> 0])"
  by (simp add: parse_log_line_def example_defs mapper_defs)

lemma parse_B_alone:
  "parse_log_line example_ext line_B [] Map.empty = Inl UnknownOplogReference"
  by (simp add: parse_log_line_def example_defs mapper_defs)

lemma gen_A: "gen example_ext ''a.log'' [''noise'', ''T1 A''] 0 = ([line_A], None)"
  by (simp add: example_ext_def line_A_def yield_def parse_log_timestamp_def
      str_nat.simps digit_char_def)













section \<open>Properties\<close>

subsection \<open>Auxiliary facts\<close>

lemma parse_log_line_Inr:
  assumes "parse_log_line x l pm om = Inr (ev, pm', om')"
  shows "\<exists>raft host parts p port lg entries cp cp_t cp_ts cp_index act tm label st.
     getitem (obj l) ''state'' = Inr raft \<and>
     getitem (obj l) ''host'' = Inr host \<and>
     str_split host = Inr parts \<and>
     list_getitem parts 1 = Inr p \<and>
     int_of_str x p = Some port \<and>
     getitem raft ''log'' = Inr lg \<and>
     py_iter lg = Inr entries \<and>
     generate_oplog_entries entries 0 om = Inr (ev_log ev, om') \<and>
     getitem raft ''commitPoint'' = Inr cp \<and>
     getitem cp ''t'' = Inr cp_t \<and>
     getitem cp ''ts'' = Inr cp_ts \<and>
     get_index om' cp_ts = Inr cp_index \<and>
     getitem (obj l) ''action'' = Inr act \<and>
     get_server_id pm port = (ev_server_id ev, pm') \<and>
     getitem raft ''term'' = Inr tm \<and>
     getitem raft ''serverState'' = Inr label \<and>
     ServerState_getitem x label = Inr st \<and>
     ev_timestamp ev = timestamp l \<and> ev_location ev = location l \<and> ev_line ev = line l \<and>
     ev_action ev = act \<and> ev_term ev = fixup_term tm \<and> ev_state ev = st \<and>
     ev_commitPoint ev = CommitPoint (fixup_term cp_t) cp_index"
  using assms unfolding parse_log_line_def
  by (auto split: sum.splits option.splits prod.splits)





subsection \<open>The state accumulator\<close>




text \<open>
  Claim C5, as the code has it. The initial snapshot of \<open>main\<close> for \<open>n\<close> log files has
  \<open>n\<close> servers, each a follower with an empty log and the commit point
  \<^verbatim>\<open>{'term': -1, 'index': 0}\<close>, the action \<^verbatim>\<open>'Init'\<close>, an empty location, and the global
  term -1: the sentinel itself, which \<open>fixup_term\<close> would map to 0 and which is not 0.
\<close>

theorem initial_state_fields:
  "n_servers (initial_state n) = n \<and>
   action (initial_state n) = JStr ''Init'' \<and>
   globalCurrentTerm (initial_state n) = JInt (- 1) \<and>
   fixup_term (globalCurrentTerm (initial_state n)) = JInt 0 \<and>
   globalCurrentTerm (initial_state n) \<noteq> JInt 0 \<and>
   serverLogLocation (initial_state n) = [] \<and>
   length (log (initial_state n)) = n \<and>
   length (state (initial_state n)) = n \<and>
   length (commitPoint (initial_state n)) = n \<and>
   (\<forall>i<n. log (initial_state n) ! i = [] \<and>
      state (initial_state n) ! i = Follower \<and>
      commitPoint (initial_state n) ! i
        = CommitPointDict [(''term'', JInt (- 1)), (''index'', JInt 0)])"
  by (simp add: initial_state_def fixup_term_def)

theorem initial_state_fields_witness:
  "(1::nat) < 3 \<and> log (initial_state 3) ! 1 = [] \<and> state (initial_state 3) ! 1 = Follower \<and>
   commitPoint (initial_state 3) ! 1
     = CommitPointDict [(''term'', JInt (- 1)), (''index'', JInt 0)] \<and>
   globalCurrentTerm (initial_state 3) = JInt (- 1)"
proof -
  have "(1::nat) < 3" by simp
  with initial_state_fields [of 3] show ?thesis by blast
qed

text \<open>The claim as stated fails: the global term of the initial snapshot is not the
  normalized sentinel.\<close>

theorem initial_state_term_counterexample:
  "globalCurrentTerm (initial_state 3) \<noteq> fixup_term (JInt (- 1))"
  by (simp add: initial_state_def fixup_term_def)

subsection \<open>The term normalizer\<close>

text \<open>
  Claim C6. \<open>fixup_term\<close> maps -1 to 0 and leaves every other value as it is; the event
  \<open>parse_log_line\<close> returns carries \<open>fixup_term\<close> of the term the payload reports under
  \<^verbatim>\<open>state.term\<close> and, in its commit point, \<open>fixup_term\<close> of \<^verbatim>\<open>state.commitPoint.t\<close>.
\<close>

theorem fixup_term_normalizes:
  "fixup_term (JInt (- 1)) = JInt 0 \<and>
   (\<forall>t. t \<noteq> - 1 \<longrightarrow> fixup_term (JInt t) = JInt t) \<and>
   (\<forall>v. v \<noteq> JInt (- 1) \<longrightarrow> fixup_term v = v) \<and>
   (\<forall>x l pm om ev pm' om'. parse_log_line x l pm om = Inr (ev, pm', om') \<longrightarrow>
      (\<exists>raft tm cp cp_t i.
         getitem (obj l) ''state'' = Inr raft \<and>
         getitem raft ''term'' = Inr tm \<and> ev_term ev = fixup_term tm \<and>
         getitem raft ''commitPoint'' = Inr cp \<and> getitem cp ''t'' = Inr cp_t \<and>
         ev_commitPoint ev = CommitPoint (fixup_term cp_t) i))"
proof -
  have "\<exists>raft tm cp cp_t i.
         getitem (obj l) ''state'' = Inr raft \<and>
         getitem raft ''term'' = Inr tm \<and> ev_term ev = fixup_term tm \<and>
         getitem raft ''commitPoint'' = Inr cp \<and> getitem cp ''t'' = Inr cp_t \<and>
         ev_commitPoint ev = CommitPoint (fixup_term cp_t) i"
    if "parse_log_line x l pm om = Inr (ev, pm', om')" for x l pm om ev pm' om'
  proof -
    from parse_log_line_Inr [OF that] show ?thesis
      by blast
  qed
  then show ?thesis
    by (simp add: fixup_term_def)
qed

theorem fixup_term_normalizes_witness:
  "parse_log_line example_ext line_B [(27017, 0)] [JTimestamp 1 1 \<mapsto> 0]
     = Inr (event_B, [(27017, 0), (27018, 1)], [JTimestamp 1 1 \<mapsto> 0]) \<and>
   (\<exists>raft cp. getitem (obj line_B) ''state'' = Inr raft \<and>
      getitem raft ''term'' = Inr (JInt (- 1)) \<and> ev_term event_B = JInt 0 \<and>
      getitem raft ''commitPoint'' = Inr cp \<and> getitem cp ''t'' = Inr (JInt (- 1)) \<and>
      ev_commitPoint event_B = CommitPoint (JInt 0) 0)"
proof -
  from fixup_term_normalizes parse_B
  obtain raft tm cp cp_t i where *:
    "getitem (obj line_B) ''state'' = Inr raft"
    "getitem raft ''term'' = Inr tm" "ev_term event_B = fixup_term tm"
    "getitem raft ''commitPoint'' = Inr cp" "getitem cp ''t'' = Inr cp_t"
    "ev_commitPoint event_B = CommitPoint (fixup_term cp_t) i"
    by blast
  from *(1) have raft: "raft = JObj [(''term'', JInt (- 1)), (''serverState'', JStr ''Follower''),
          (''commitPoint'', JObj [(''t'', JInt (- 1)), (''ts'', JTimestamp 1 1)]),
          (''log'', JArr [])]"
    by (simp add: line_B_def payload_B_def)
  from *(2) raft have tm: "tm = JInt (- 1)" by simp
  from *(4) raft have cp: "cp = JObj [(''t'', JInt (- 1)), (''ts'', JTimestamp 1 1)]" by simp
  from *(5) cp have cp_t: "cp_t = JInt (- 1)" by simp
  from *(6) have i: "i = 0" by (simp add: event_B_def)
  from * tm cp_t i parse_B show ?thesis
    by (auto simp: fixup_term_def)
qed

subsection \<open>The run of \<open>main\<close>\<close>










subsection \<open>The port mapper\<close>

lemma get_server_ids_Cons:
  "fst (get_server_ids pm (q # qs))
     = fst (get_server_id pm q) # fst (get_server_ids (snd (get_server_id pm q)) qs)"
  "snd (get_server_ids pm (q # qs)) = snd (get_server_ids (snd (get_server_id pm q)) qs)"
  by (simp_all split: prod.splits)

lemma map_of_snoc_fresh: "map_of pm port = None \<Longrightarrow> map_of (pm @ [(port, v)]) port = Some v"
  by (simp add: map_add_def)

lemma map_of_snoc_kept: "map_of pm port = Some i \<Longrightarrow> map_of (pm @ [(q, v)]) port = Some i"
  by (simp add: map_add_def)

lemma get_server_id_registered:
  "map_of (snd (get_server_id pm port)) port = Some (fst (get_server_id pm port))"
  by (cases "map_of pm port") (simp_all add: get_server_id_def map_add_def)

lemma get_server_id_hit: "map_of pm port = Some i \<Longrightarrow> get_server_id pm port = (i, pm)"
  by (simp add: get_server_id_def)

lemma get_server_id_kept:
  "map_of pm port = Some i \<Longrightarrow> map_of (snd (get_server_id pm q)) port = Some i"
  by (cases "map_of pm q") (simp_all add: get_server_id_def map_add_def)

lemma get_server_ids_kept:
  "map_of pm port = Some i \<Longrightarrow> map_of (snd (get_server_ids pm qs)) port = Some i"
proof (induction qs arbitrary: pm)
  case Nil
  then show ?case by simp
next
  case (Cons q qs)
  from Cons.prems have "map_of (snd (get_server_id pm q)) port = Some i"
    by (rule get_server_id_kept)
  from Cons.IH [OF this] show ?case
    by (simp only: get_server_ids_Cons)
qed

lemma get_server_id_again:
  "fst (get_server_id (snd (get_server_id pm port)) port) = fst (get_server_id pm port)"
  using get_server_id_hit [OF get_server_id_registered [of pm port]] by simp

lemma get_server_id_stable:
  "fst (get_server_id (snd (get_server_ids (snd (get_server_id pm port)) qs)) port)
     = fst (get_server_id pm port)"
  using get_server_id_hit [OF get_server_ids_kept [OF get_server_id_registered [of pm port]]]
  by simp

lemma get_server_ids_fresh:
  "distinct ports \<Longrightarrow> set ports \<inter> fst ` set pm = {} \<Longrightarrow>
     fst (get_server_ids pm ports) = map int [length pm..<length pm + length ports]"
proof (induction ports arbitrary: pm)
  case Nil
  then show ?case by simp
next
  case (Cons p ports)
  from Cons.prems have none: "map_of pm p = None"
    by (auto simp: map_of_eq_None_iff)
  then have step: "get_server_id pm p = (int (length pm), pm @ [(p, int (length pm))])"
    by (simp add: get_server_id_def)
  from Cons.prems have "distinct ports" "set ports \<inter> fst ` set (pm @ [(p, int (length pm))]) = {}"
    by auto
  from Cons.IH [OF this]
  have rest: "fst (get_server_ids (pm @ [(p, int (length pm))]) ports)
      = map int [Suc (length pm)..<Suc (length pm) + length ports]"
    by simp
  have "[length pm..<length pm + length (p # ports)]
      = length pm # [Suc (length pm)..<Suc (length pm) + length ports]"
    by (simp add: upt_conv_Cons del: upt_Suc)
  then show ?case
    by (simp only: get_server_ids_Cons step fst_conv snd_conv rest list.map)
qed


lemma get_server_ids_table_ids:
  "map snd pm = map int [0..<length pm] \<Longrightarrow>
     map snd (snd (get_server_ids pm ports))
       = map int [0..<length (snd (get_server_ids pm ports))]"
proof (induction ports arbitrary: pm)
  case Nil
  then show ?case by simp
next
  case (Cons p ports)
  have "map snd (snd (get_server_id pm p)) = map int [0..<length (snd (get_server_id pm p))]"
    using Cons.prems by (cases "map_of pm p") (simp_all add: get_server_id_def)
  from Cons.IH [OF this] show ?case
    by (simp only: get_server_ids_Cons)
qed

lemma get_server_ids_table_ports:
  "map fst (snd (get_server_ids pm ports))
     = map fst pm @ filter (\<lambda>q. q \<notin> fst ` set pm) (first_seen ports)"
proof (induction ports arbitrary: pm)
  case Nil
  then show ?case by simp
next
  case (Cons p ports)
  show ?case
  proof (cases "map_of pm p")
    case None
    then have new: "p \<notin> fst ` set pm"
      by (simp add: map_of_eq_None_iff)
    from None have step: "snd (get_server_id pm p) = pm @ [(p, int (length pm))]"
      by (simp add: get_server_id_def)
    have "filter (\<lambda>q. q \<notin> fst ` set (pm @ [(p, int (length pm))])) (first_seen ports)
        = filter (\<lambda>q. q \<notin> fst ` set pm) (removeAll p (first_seen ports))"
      by (auto simp: removeAll_filter_not_eq intro: filter_cong)
    with new show ?thesis
      by (simp only: get_server_ids_Cons step Cons.IH) simp
  next
    case (Some i)
    then have old: "p \<in> fst ` set pm"
      by (metis map_of_eq_None_iff option.distinct(1))
    from Some have step: "snd (get_server_id pm p) = pm"
      by (simp add: get_server_id_def)
    have "filter (\<lambda>q. q \<notin> fst ` set pm) (removeAll p (first_seen ports))
        = filter (\<lambda>q. q \<notin> fst ` set pm) (first_seen ports)"
      using old by (auto simp: removeAll_filter_not_eq intro: filter_cong)
    with old show ?thesis
      by (simp only: get_server_ids_Cons step Cons.IH) simp
  qed
qed

lemma get_server_ids_returned:
  "i < length ports \<Longrightarrow>
     map_of (snd (get_server_ids pm ports)) (ports ! i) = Some (fst (get_server_ids pm ports) ! i)"
proof (induction ports arbitrary: pm i)
  case Nil
  then show ?case by simp
next
  case (Cons p ports)
  show ?case
  proof (cases i)
    case 0
    have "map_of (snd (get_server_ids (snd (get_server_id pm p)) ports)) p
        = Some (fst (get_server_id pm p))"
      by (rule get_server_ids_kept) (rule get_server_id_registered)
    with 0 show ?thesis
      by (simp only: get_server_ids_Cons) simp
  next
    case (Suc j)
    with Cons.prems have "j < length ports" by simp
    from Cons.IH [OF this, of "snd (get_server_id pm p)"] Suc show ?thesis
      by (simp only: get_server_ids_Cons) simp
  qed
qed


text \<open>
  Claim C8. A second call of \<open>get_server_id\<close> with a port returns the id of the first call,
  also after calls with other ports in between. Calls with \<open>K\<close> distinct ports on a new
  mapper return 0, ..., \<open>K - 1\<close> in this order. After any sequence of calls on a new mapper
  the table lists the distinct ports in the order of their first call, with the ids
  0, 1, 2, ... in this order, and every call returned the id the table gives its port.
\<close>

theorem port_mapper_first_seen:
  "fst (get_server_id (snd (get_server_id pm port)) port) = fst (get_server_id pm port) \<and>
   fst (get_server_id (snd (get_server_ids (snd (get_server_id pm port)) qs)) port)
     = fst (get_server_id pm port) \<and>
   (distinct ports \<longrightarrow> fst (get_server_ids [] ports) = map int [0..<length ports]) \<and>
   map fst (snd (get_server_ids [] ports)) = first_seen ports \<and>
   map snd (snd (get_server_ids [] ports)) = map int [0..<length (first_seen ports)] \<and>
   (\<forall>i<length ports.
      map_of (snd (get_server_ids [] ports)) (ports ! i)
        = Some (fst (get_server_ids [] ports) ! i))"
proof -
  have ports: "map fst (snd (get_server_ids [] ports)) = first_seen ports"
    using get_server_ids_table_ports [of "[]" ports] by simp
  then have "length (snd (get_server_ids [] ports)) = length (first_seen ports)"
    by (metis length_map)
  then have "map snd (snd (get_server_ids [] ports)) = map int [0..<length (first_seen ports)]"
    using get_server_ids_table_ids [of "[]" ports] by simp
  with ports show ?thesis
    using get_server_id_again [of pm port] get_server_id_stable [of pm port qs]
      get_server_ids_fresh [of ports "[]"] get_server_ids_returned [of _ ports "[]"]
    by simp
qed

theorem port_mapper_first_seen_witness:
  "distinct [27017, 27018, 27019 :: int] \<and>
   fst (get_server_ids [] [27017, 27018, 27019]) = [0, 1, 2] \<and>
   fst (get_server_id (snd (get_server_ids (snd (get_server_id [] 27017)) [27018, 27019])) 27017)
     = 0 \<and>
   (1::nat) < length [27017, 27018, 27019 :: int] \<and>
   map_of (snd (get_server_ids [] [27017, 27018, 27019])) 27018 = Some 1"
proof -
  have d: "distinct [27017, 27018, 27019 :: int]" by simp
  have u: "map int [0..<length [27017, 27018, 27019 :: int]] = [0, 1, 2]"
    by (simp add: upt_rec)
  have z: "fst (get_server_id [] 27017) = 0"
    by (simp add: get_server_id_def)
  have l: "(1::nat) < length [27017, 27018, 27019 :: int]" by simp
  from port_mapper_first_seen [of "[]" 27017 "[27018, 27019]" "[27017, 27018, 27019]"] d u z l
  show ?thesis by auto
qed

subsection \<open>The line generator\<close>

lemma fst_yield [simp]: "fst (yield v g) = v # fst g"
  and snd_yield [simp]: "snd (yield v g) = snd g"
  by (simp_all add: yield_def)

lemma gen_skip:
  "\<forall>ln\<in>set pre. line_pat_match x ln = None \<Longrightarrow>
     gen x nm (pre @ rest) n = gen x nm rest (n + length pre)"
  by (induction pre arbitrary: n) simp_all

lemma gen_locations_prefix:
  "prefix (map (\<lambda>l. (location l, line l)) (fst (gen x nm lns n)))
     (map (\<lambda>(k, ln). (nm @ '':'' @ str_nat k, ln))
        (filter (\<lambda>(k, ln). line_pat_match x ln \<noteq> None) (enumerate (Suc n) lns)))"
  by (induction lns arbitrary: n) (auto split: option.splits sum.splits)

lemma gen_locations:
  "snd (gen x nm lns n) = None \<Longrightarrow>
   map (\<lambda>l. (location l, line l)) (fst (gen x nm lns n))
     = map (\<lambda>(k, ln). (nm @ '':'' @ str_nat k, ln))
        (filter (\<lambda>(k, ln). line_pat_match x ln \<noteq> None) (enumerate (Suc n) lns))"
  by (induction lns arbitrary: n) (auto split: option.splits sum.splits)

lemma gen_status:
  "snd (gen x nm lns n) = Some e \<Longrightarrow>
     \<exists>ln\<in>set lns. \<exists>tsg jsg. line_pat_match x ln = Some (tsg, jsg) \<and>
       (parse_log_timestamp x tsg = Inl e \<or>
        (\<exists>ts. parse_log_timestamp x tsg = Inr ts) \<and>
          (json_loads x jsg = Inl JSONDecodeError \<and> e = SystemExit 2 \<or>
           json_loads x jsg = Inl e \<and> e \<noteq> JSONDecodeError))"
proof (induction lns arbitrary: n)
  case Nil
  then show ?case by simp
next
  case (Cons ln lns)
  show ?case
  proof (cases "line_pat_match x ln")
    case None
    with Cons.prems have "snd (gen x nm lns (Suc n)) = Some e" by simp
    from Cons.IH [OF this] show ?thesis by auto
  next
    case (Some g)
    obtain tsg jsg where g: "g = (tsg, jsg)" by (cases g)
    show ?thesis
    proof (cases "parse_log_timestamp x tsg")
      case (Inl e')
      with Cons.prems Some g show ?thesis by auto
    next
      case (Inr ts)
      show ?thesis
      proof (cases "json_loads x jsg")
        case (Inl e')
        with Cons.prems Some g Inr show ?thesis by (cases "e' = JSONDecodeError") auto
      next
        case ob: (Inr ob)
        with Cons.prems Some g Inr have "snd (gen x nm lns (Suc n)) = Some e" by simp
        from Cons.IH [OF this] show ?thesis by auto
      qed
    qed
  qed
qed


text \<open>
  Claim C10. A line that does not match \<open>line_pat\<close> is passed over by \<open>gen\<close>: it yields
  nothing and raises nothing, and the line counter moves on. So the locations and lines of
  the events \<open>gen\<close> yields are, in order, those of the matching lines of the file, each
  with its 1-based line number in the file (all of them when \<open>gen\<close> ends normally, and the
  first of them when a matching line cannot be decoded); and \<open>gen\<close> ends with an exception
  only because of a line that matches.
\<close>

theorem gen_skips_unmatched_lines:
  "prefix (map (\<lambda>l. (location l, line l)) (fst (gen x nm lns 0)))
     (map (\<lambda>(k, ln). (nm @ '':'' @ str_nat k, ln))
        (filter (\<lambda>(k, ln). line_pat_match x ln \<noteq> None) (enumerate 1 lns))) \<and>
   (snd (gen x nm lns 0) = None \<longrightarrow>
      map (\<lambda>l. (location l, line l)) (fst (gen x nm lns 0))
        = map (\<lambda>(k, ln). (nm @ '':'' @ str_nat k, ln))
            (filter (\<lambda>(k, ln). line_pat_match x ln \<noteq> None) (enumerate 1 lns))) \<and>
   ((\<forall>ln\<in>set pre. line_pat_match x ln = None) \<longrightarrow>
      gen x nm (pre @ rest) n = gen x nm rest (n + length pre)) \<and>
   (\<forall>e. snd (gen x nm lns 0) = Some e \<longrightarrow> (\<exists>ln\<in>set lns. line_pat_match x ln \<noteq> None))"
proof -
  have "\<exists>ln\<in>set lns. line_pat_match x ln \<noteq> None" if "snd (gen x nm lns 0) = Some e" for e
    using gen_status [OF that] by auto
  then show ?thesis
    using gen_locations_prefix [of x nm lns 0] gen_locations [of x nm lns 0]
      gen_skip [of pre x nm rest n]
    by auto
qed

theorem gen_skips_unmatched_lines_witness:
  "snd (gen example_ext ''a.log'' [''noise'', ''T1 A''] 0) = None \<and>
   line_pat_match example_ext ''noise'' = None \<and>
   map (\<lambda>l. (location l, line l)) (fst (gen example_ext ''a.log'' [''noise'', ''T1 A''] 0))
     = [(''a.log:2'', ''T1 A'')] \<and>
   gen example_ext ''a.log'' ([''noise''] @ [''T1 A'']) 0
     = gen example_ext ''a.log'' [''T1 A''] (0 + length [''noise''])"
proof -
  have n: "snd (gen example_ext ''a.log'' [''noise'', ''T1 A''] 0) = None"
    by (simp only: gen_A snd_conv)
  have u: "\<forall>ln\<in>set [''noise'']. line_pat_match example_ext ln = None"
    by (simp add: example_ext_def)
  from gen_skips_unmatched_lines [of example_ext "''a.log''" "[''noise'', ''T1 A'']"
      "[''noise'']" "[''T1 A'']" 0] n u
  have "map (\<lambda>l. (location l, line l)) (fst (gen example_ext ''a.log'' [''noise'', ''T1 A''] 0))
      = map (\<lambda>(k, ln). (''a.log'' @ '':'' @ str_nat k, ln))
          (filter (\<lambda>(k, ln). line_pat_match example_ext ln \<noteq> None)
             (enumerate 1 [''noise'', ''T1 A'']))"
    and "gen example_ext ''a.log'' ([''noise''] @ [''T1 A'']) 0
      = gen example_ext ''a.log'' [''T1 A''] (0 + length [''noise''])"
    by blast+
  moreover have "map (\<lambda>(k, ln). (''a.log'' @ '':'' @ str_nat k, ln))
          (filter (\<lambda>(k, ln). line_pat_match example_ext ln \<noteq> None)
             (enumerate 1 [''noise'', ''T1 A'']))
      = [(''a.log:2'', ''T1 A'')]"
    by (simp add: example_ext_def str_nat.simps digit_char_def)
  ultimately show ?thesis
    using n u by (simp del: gen.simps)
qed

subsection \<open>The oplog index mapper\<close>

lemma set_index_kept: "set_index om ts i = Inr om' \<Longrightarrow> om ts' = Some j \<Longrightarrow> om' ts' = Some j"
  by (auto simp: set_index_def split: option.splits if_splits)

lemma set_index_registered: "set_index om ts i = Inr om' \<Longrightarrow> om' ts = Some i"
  by (auto simp: set_index_def split: option.splits if_splits)


lemma generate_oplog_entries_kept:
  "generate_oplog_entries entries k om = Inr (lg, om') \<Longrightarrow> om ts = Some j \<Longrightarrow> om' ts = Some j"
proof (induction entries arbitrary: k om lg)
  case Nil
  then show ?case by simp
next
  case (Cons entry entries)
  from Cons.prems(1) obtain ts0 om1 t es where
    "set_index om ts0 k = Inr om1"
    "generate_oplog_entries entries (Suc k) om1 = Inr (es, om')"
    by (auto split: sum.splits)
  with Cons.IH Cons.prems(2) set_index_kept show ?case
    by blast
qed

lemma generate_oplog_entries_registered:
  "generate_oplog_entries entries k om = Inr (lg, om') \<Longrightarrow> i < length entries \<Longrightarrow>
     getitem (entries ! i) ''ts'' = Inr ts \<Longrightarrow> om' ts = Some (k + i)"
proof (induction entries arbitrary: k om lg i)
  case Nil
  then show ?case by simp
next
  case (Cons entry entries)
  from Cons.prems(1) obtain ts0 om1 t es where
    e: "getitem entry ''ts'' = Inr ts0" "set_index om ts0 k = Inr om1"
    "generate_oplog_entries entries (Suc k) om1 = Inr (es, om')"
    by (auto split: sum.splits)
  show ?case
  proof (cases i)
    case 0
    with Cons.prems(3) e(1) have "ts0 = ts" by simp
    with e(2) have "om1 ts = Some k" by (simp add: set_index_registered)
    with generate_oplog_entries_kept [OF e(3)] 0 show ?thesis by simp
  next
    case (Suc i')
    with Cons.prems have "i' < length entries" "getitem (entries ! i') ''ts'' = Inr ts"
      by simp_all
    from Cons.IH [OF e(3) this] Suc show ?thesis by simp
  qed
qed


lemma main_loop_abort:
  "parse_log_line x l pm om = Inl e \<Longrightarrow>
     main_loop x (l # rest) status tr pm om cur = Aborted e tr"
  by simp

text \<open>
  Claim C1, as the code has it. \<open>main\<close> creates one \<open>OplogIndexMapper\<close> and passes it to
  every call of \<open>parse_log_line\<close>, which registers and looks up optimes by the optime
  alone: the index space is shared by all servers. An optime that stands at position \<open>i\<close>
  of the oplog one event reports is registered at \<open>i\<close>, and a later event, of whatever
  server, whose commit point is at this optime gets the commit index \<open>i\<close>.
\<close>

theorem shared_oplog_index:
  assumes "parse_log_line x l1 pm om = Inr (ev1, pm1, om1)"
    and "getitem (obj l1) ''state'' = Inr raft1" and "getitem raft1 ''log'' = Inr lg1"
    and "py_iter lg1 = Inr entries1" and "i < length entries1"
    and "getitem (entries1 ! i) ''ts'' = Inr ts"
    and "parse_log_line x l2 pm1 om1 = Inr (ev2, pm2, om2)"
    and "getitem (obj l2) ''state'' = Inr raft2" and "getitem raft2 ''commitPoint'' = Inr cp2"
    and "getitem cp2 ''ts'' = Inr ts"
  shows "om1 ts = Some i \<and> om2 ts = Some i \<and> (\<exists>t. ev_commitPoint ev2 = CommitPoint t i)"
proof -
  from parse_log_line_Inr [OF assms(1)] assms(2,3,4)
  have "generate_oplog_entries entries1 0 om = Inr (ev_log ev1, om1)"
    by auto
  from generate_oplog_entries_registered [OF this assms(5,6)]
  have om1: "om1 ts = Some i" by simp
  from parse_log_line_Inr [OF assms(7)] assms(8,9,10)
  obtain entries2 cp_t cp_index where
    g: "generate_oplog_entries entries2 0 om1 = Inr (ev_log ev2, om2)"
    and idx: "get_index om2 ts = Inr cp_index"
    and ev: "ev_commitPoint ev2 = CommitPoint (fixup_term cp_t) cp_index"
    by auto
  from generate_oplog_entries_kept [OF g om1] have om2: "om2 ts = Some i" .
  with idx have "cp_index = i" by (simp add: get_index_def)
  with om1 om2 ev show ?thesis by blast
qed

theorem shared_oplog_index_witness:
  "parse_log_line example_ext line_A [] Map.empty
     = Inr (event_A, [(27017, 0)], [JTimestamp 1 1 \<mapsto> 0]) \<and>
   parse_log_line example_ext line_B [(27017, 0)] [JTimestamp 1 1 \<mapsto> 0]
     = Inr (event_B, [(27017, 0), (27018, 1)], [JTimestamp 1 1 \<mapsto> 0]) \<and>
   ev_server_id event_A = 0 \<and> ev_server_id event_B = 1 \<and>
   (\<exists>t. ev_commitPoint event_B = CommitPoint t 0)"
proof -
  let ?raftA = "JObj [(''term'', JInt 1), (''serverState'', JStr ''Leader''),
          (''commitPoint'', JObj [(''t'', JInt 1), (''ts'', JTimestamp 1 1)]),
          (''log'', JArr [JObj [(''ts'', JTimestamp 1 1), (''t'', JInt 1)]])]"
  let ?raftB = "JObj [(''term'', JInt (- 1)), (''serverState'', JStr ''Follower''),
          (''commitPoint'', JObj [(''t'', JInt (- 1)), (''ts'', JTimestamp 1 1)]),
          (''log'', JArr [])]"
  let ?entries = "[JObj [(''ts'', JTimestamp 1 1), (''t'', JInt 1)]]"
  let ?cp = "JObj [(''t'', JInt (- 1)), (''ts'', JTimestamp 1 1)]"
  have 2: "getitem (obj line_A) ''state'' = Inr ?raftA"
    and 8: "getitem (obj line_B) ''state'' = Inr ?raftB"
    by (simp_all add: line_A_def line_B_def payload_A_def payload_B_def)
  have 3: "getitem ?raftA ''log'' = Inr (JArr ?entries)"
    and 4: "py_iter (JArr ?entries) = Inr ?entries"
    and 5: "0 < length ?entries"
    and 6: "getitem (?entries ! 0) ''ts'' = Inr (JTimestamp 1 1)"
    and 9: "getitem ?raftB ''commitPoint'' = Inr ?cp"
    and 10: "getitem ?cp ''ts'' = Inr (JTimestamp 1 1)"
    by simp_all
  from shared_oplog_index [OF parse_A 2 3 4 5 6 parse_B 8 9 10]
  have "\<exists>t. ev_commitPoint event_B = CommitPoint t 0"
    by blast
  then show ?thesis
    using parse_A parse_B by (simp add: event_A_def event_B_def)
qed

text \<open>The claim as stated fails: the lookup for server 1 raises on a new mapper and
  returns the index 0 once server 0 has registered the optime.\<close>

theorem shared_oplog_index_counterexample:
  "ev_server_id event_A \<noteq> ev_server_id event_B \<and>
   parse_log_line example_ext line_A [] Map.empty
     = Inr (event_A, [(27017, 0)], [JTimestamp 1 1 \<mapsto> 0]) \<and>
   parse_log_line example_ext line_B [(27017, 0)] Map.empty = Inl UnknownOplogReference \<and>
   parse_log_line example_ext line_B [(27017, 0)] [JTimestamp 1 1 \<mapsto> 0]
     = Inr (event_B, [(27017, 0), (27018, 1)], [JTimestamp 1 1 \<mapsto> 0])"
proof -
  have "parse_log_line example_ext line_B [(27017, 0)] Map.empty = Inl UnknownOplogReference"
    by (simp add: parse_log_line_def example_defs mapper_defs)
  then show ?thesis
    using parse_A parse_B by (simp add: event_A_def event_B_def)
qed




subsection \<open>The merge\<close>

lemma entry_items_simp [simp]: "entry_items (v, order, rest, status) = v # rest"
  by (simp add: entry_items_def)

lemma entry_status_simp [simp]: "entry_status (v, order, rest, status) = status"
  by (simp add: entry_status_def)





























lemma merge_init_orders:
  "merge_init its n = Inr h \<Longrightarrow>
     sorted_wrt (<) (map (\<lambda>e. fst (snd e)) h) \<and> (\<forall>e\<in>set h. n \<le> fst (snd e))"
proof (induction its n arbitrary: h rule: merge_init.induct)
  case (1 order)
  then show ?case by simp
next
  case (2 items status its order)
  show ?case
  proof (cases items)
    case Nil
    with 2(3) have st: "status = None" and r: "merge_init its (Suc order) = Inr h"
      by (auto split: option.splits)
    from 2(1) [OF Nil st r] show ?thesis by auto
  next
    case (Cons v rest)
    with 2(3) obtain h' where r: "merge_init its (Suc order) = Inr h'"
      and h: "h = (v, order, rest, status) # h'"
      by (auto split: sum.splits)
    from 2(2) [OF Cons r] h show ?thesis
      by (fastforce simp: Suc_le_eq)
  qed
qed



end
